theory Spec2Isabelle
  imports Main "HOL-Library.Char_ord" "HOL-Library.List_Lexorder"
begin

section \<open>The release table generator (.github/scripts/update-readme.py)\<close>

text \<open>
  The script lists the sub-folders of \<^verbatim>\<open>releases\<close>, loads the first YAML file of each
  one into a dictionary, and rewrites \<^verbatim>\<open>releases/README.md\<close> with a Markdown table.
  The embedding follows the script function by function. Python strings are modelled
  as \<^typ>\<open>string\<close>; the order on them is the lexicographic order on characters, which
  is what Python's comparison of \<^verbatim>\<open>str\<close> values computes. A function that can raise
  returns a sum, the exception on the left.
\<close>

subsection \<open>Values, errors and dictionaries\<close>

text \<open>
  A scalar as \<^verbatim>\<open>yaml.safe_load\<close> returns it. A float is given by the text that
  \<^verbatim>\<open>str\<close> prints for it. Sequences, nested mappings and timestamps are left out.
\<close>

datatype yval = YStr string | YInt int | YBool bool | YNull | YFloat string

datatype error = TypeError | KeyError | OSError | YAMLError

text \<open>
  A Python \<^verbatim>\<open>dict\<close> with string keys: the items in insertion order. The keys of a
  dictionary are distinct; the theorems that need it assume \<open>distinct (map fst d)\<close>.
\<close>

type_synonym 'v dict = "(string \<times> 'v) list"

type_synonym metadata = "yval dict"

definition dict_get :: "'v dict \<Rightarrow> string \<Rightarrow> 'v \<Rightarrow> 'v" where
  "dict_get d k dflt = (case map_of d k of None \<Rightarrow> dflt | Some v \<Rightarrow> v)"

definition dict_contains :: "string \<Rightarrow> 'v dict \<Rightarrow> bool" where
  "dict_contains k d = (map_of d k \<noteq> None)"

definition dict_keys :: "'v dict \<Rightarrow> string list" where
  "dict_keys d = map fst d"

fun dict_set :: "'v dict \<Rightarrow> string \<Rightarrow> 'v \<Rightarrow> 'v dict" where
  "dict_set [] k v = [(k, v)]"
| "dict_set ((k', v') # d) k v =
     (if k' = k then (k, v) # d else (k', v') # dict_set d k v)"

definition dict_update :: "'v dict \<Rightarrow> 'v dict \<Rightarrow> 'v dict" where
  "dict_update d other = fold (\<lambda>(k, v) acc. dict_set acc k v) other d"

subsection \<open>Built-in string operations\<close>

fun str_nat :: "nat \<Rightarrow> string" where
  "str_nat n =
     (if n < 10 then [''0123456789'' ! n]
      else str_nat (n div 10) @ [''0123456789'' ! (n mod 10)])"

declare str_nat.simps [simp del]

definition str_int :: "int \<Rightarrow> string" where
  "str_int i = (if i < 0 then CHR ''-'' # str_nat (nat (- i)) else str_nat (nat i))"

text \<open>\<^verbatim>\<open>str(v)\<close>\<close>

fun py_str :: "yval \<Rightarrow> string" where
  "py_str (YStr s) = s"
| "py_str (YInt i) = str_int i"
| "py_str (YBool b) = (if b then ''True'' else ''False'')"
| "py_str YNull = ''None''"
| "py_str (YFloat t) = t"

text \<open>\<^verbatim>\<open>s + v\<close> for a string \<open>s\<close>: only a string can be concatenated to a string.\<close>

fun str_add :: "string \<Rightarrow> yval \<Rightarrow> error + string" where
  "str_add s (YStr t) = Inr (s @ t)"
| "str_add s _ = Inl TypeError"

text \<open>\<^verbatim>\<open>v += s\<close> for a string \<open>s\<close>: no scalar other than a string accepts it.\<close>

fun add_str :: "yval \<Rightarrow> string \<Rightarrow> error + yval" where
  "add_str (YStr s) t = Inr (YStr (s @ t))"
| "add_str _ t = Inl TypeError"

text \<open>\<^verbatim>\<open>sep.join(xs)\<close> on strings.\<close>

fun join :: "string \<Rightarrow> string list \<Rightarrow> string" where
  "join sep [] = []"
| "join sep [x] = x"
| "join sep (x # y # ys) = x @ sep @ join sep (y # ys)"

text \<open>\<^verbatim>\<open>str.join\<close> raises \<^verbatim>\<open>TypeError\<close> on an item that is not a string.\<close>

fun str_items :: "yval list \<Rightarrow> error + string list" where
  "str_items [] = Inr []"
| "str_items (YStr s # vs) =
     (case str_items vs of Inl e \<Rightarrow> Inl e | Inr ss \<Rightarrow> Inr (s # ss))"
| "str_items (_ # vs) = Inl TypeError"

subsection \<open>The table: header and divider\<close>

definition desired_order :: "string list" where
  "desired_order = [''Description'', ''Version'', ''Language'', ''Creator'']"

text \<open>
  \<^verbatim>\<open>all_keys\<close>: the set of the keys of all the records, then \<^verbatim>\<open>sorted\<close>.
\<close>

definition all_keys :: "metadata dict \<Rightarrow> string list" where
  "all_keys folders_data = sort (remdups (concat (map (\<lambda>(folder, data). dict_keys data) folders_data)))"

definition ordered_keys :: "metadata dict \<Rightarrow> string list" where
  "ordered_keys folders_data = filter (\<lambda>key. key \<in> set (all_keys folders_data)) desired_order"

definition headers :: "metadata dict \<Rightarrow> string list" where
  "headers folders_data = ''Folder Name'' # ordered_keys folders_data"

definition table_line :: "string list \<Rightarrow> string" where
  "table_line cells = ''| '' @ join '' | '' cells @ '' |'' @ [CHR ''\<newline>'']"

definition header_line :: "metadata dict \<Rightarrow> string" where
  "header_line folders_data = table_line (headers folders_data)"

definition divider_cells :: "metadata dict \<Rightarrow> string list" where
  "divider_cells folders_data = map (\<lambda>header. replicate (length header) CHR ''-'') (headers folders_data)"

definition divider_line :: "metadata dict \<Rightarrow> string" where
  "divider_line folders_data = table_line (divider_cells folders_data)"

subsection \<open>The table: data rows\<close>

definition description_cell :: "metadata \<Rightarrow> error + yval" where
  "description_cell d =
     (let descr = dict_get d ''Description'' (YStr '''') in
      if dict_contains ''Editor'' d then
        (case str_add ''<br>[Web editor]('' (dict_get d ''Editor'' (YStr '''')) of
           Inl e \<Rightarrow> Inl e
         | Inr s \<Rightarrow> add_str descr (s @ '')''))
      else Inr descr)"

definition version_cell :: "metadata \<Rightarrow> error + string" where
  "version_cell d =
     (let vers = py_str (dict_get d ''Version'' (YStr '''')) in
      if dict_contains ''Status'' d then
        (case str_add ''<br>'' (dict_get d ''Status'' (YStr '''')) of
           Inl e \<Rightarrow> Inl e
         | Inr s \<Rightarrow> Inr (vers @ s))
      else Inr vers)"

text \<open>The list \<^verbatim>\<open>row\<close> of one folder, before it is joined.\<close>

definition make_row :: "string \<Rightarrow> metadata \<Rightarrow> error + yval list" where
  "make_row folder d =
     (case description_cell d of
        Inl e \<Rightarrow> Inl e
      | Inr descr \<Rightarrow>
          (case version_cell d of
             Inl e \<Rightarrow> Inl e
           | Inr vers \<Rightarrow>
               Inr [YStr folder, descr, YStr vers,
                    dict_get d ''Language'' (YStr ''''), dict_get d ''Creator'' (YStr '''')]))"

text \<open>The cells of a row that \<^verbatim>\<open>' | '.join(row)\<close> accepts: all of them strings.\<close>

definition row_cells :: "string \<Rightarrow> metadata \<Rightarrow> error + string list" where
  "row_cells folder d = (case make_row folder d of Inl e \<Rightarrow> Inl e | Inr row \<Rightarrow> str_items row)"

text \<open>The body of the loop over \<^verbatim>\<open>sorted_folders\<close>: the cells of every row, in order.\<close>

fun rows_cells :: "metadata dict \<Rightarrow> string list \<Rightarrow> error + string list list" where
  "rows_cells folders_data [] = Inr []"
| "rows_cells folders_data (folder # rest) =
     (case map_of folders_data folder of
        None \<Rightarrow> Inl KeyError
      | Some d \<Rightarrow>
          (case row_cells folder d of
             Inl e \<Rightarrow> Inl e
           | Inr cells \<Rightarrow>
               (case rows_cells folders_data rest of
                  Inl e \<Rightarrow> Inl e
                | Inr more \<Rightarrow> Inr (cells # more))))"

definition sorted_folders :: "metadata dict \<Rightarrow> string list" where
  "sorted_folders folders_data = sort (dict_keys folders_data)"

definition table_cells :: "metadata dict \<Rightarrow> error + string list list" where
  "table_cells folders_data = rows_cells folders_data (sorted_folders folders_data)"

definition new_table :: "metadata dict \<Rightarrow> error + string list" where
  "new_table folders_data =
     (case table_cells folders_data of
        Inl e \<Rightarrow> Inl e
      | Inr rows \<Rightarrow>
          Inr (header_line folders_data # divider_line folders_data # map table_line rows))"

subsection \<open>Files and folders\<close>

text \<open>
  The file system, as far as the script looks at it: a path names a file with its text,
  or a folder with the names \<^verbatim>\<open>os.listdir\<close> gives, in the order it gives them.
\<close>

datatype node = File string | Dir "string list"

type_synonym filesystem = "string \<Rightarrow> node option"

definition base_folder :: string where
  "base_folder = ''releases''"

text \<open>\<^verbatim>\<open>os.path.join\<close> of a folder and a name of its listing.\<close>

definition path_join :: "string \<Rightarrow> string \<Rightarrow> string" where
  "path_join a b = a @ ''/'' @ b"

definition readme_path :: string where
  "readme_path = path_join base_folder ''README.md''"

definition listdir :: "filesystem \<Rightarrow> string \<Rightarrow> error + string list" where
  "listdir fs p = (case fs p of Some (Dir names) \<Rightarrow> Inr names | _ \<Rightarrow> Inl OSError)"

definition isdir :: "filesystem \<Rightarrow> string \<Rightarrow> bool" where
  "isdir fs p = (case fs p of Some (Dir names) \<Rightarrow> True | _ \<Rightarrow> False)"

text \<open>\<^verbatim>\<open>open(p, 'r')\<close> and reading the whole text.\<close>

definition open_read :: "filesystem \<Rightarrow> string \<Rightarrow> error + string" where
  "open_read fs p = (case fs p of Some (File text) \<Rightarrow> Inr text | _ \<Rightarrow> Inl OSError)"

text \<open>
  \<^verbatim>\<open>open(p, 'w')\<close>, the writes and the close: the file is created or truncated and then
  holds the text written. Opening a folder for writing fails. The listing of the parent
  folder is left as it is (the script does not read it again), and the parent folder is
  taken to exist: \<^verbatim>\<open>main\<close> has listed it before it writes.
\<close>

definition open_write :: "filesystem \<Rightarrow> string \<Rightarrow> string \<Rightarrow> error + filesystem" where
  "open_write fs p text =
     (case fs p of Some (Dir names) \<Rightarrow> Inl OSError | _ \<Rightarrow> Inr (fs(p \<mapsto> File text)))"

definition endswith :: "string \<Rightarrow> string \<Rightarrow> bool" where
  "endswith s suffix =
     (length suffix \<le> length s \<and> drop (length s - length suffix) s = suffix)"

subsection \<open>Reading the metadata\<close>

text \<open>
  What \<^verbatim>\<open>yaml.safe_load\<close> returns for a document: a mapping, or \<^verbatim>\<open>None\<close> for an empty
  one (a document that is a scalar or a sequence is left out). The parser itself belongs
  to the YAML library and is a parameter \<open>safe_load\<close> of the functions below; it fails
  with \<open>YAMLError\<close> on a malformed document. The \<^verbatim>\<open>return {}\<close> that ends \<^verbatim>\<open>read_data\<close>
  is never reached.
\<close>

datatype ydoc = DMap metadata | DNull

type_synonym parser = "string \<Rightarrow> error + ydoc"

definition read_data :: "parser \<Rightarrow> filesystem \<Rightarrow> string \<Rightarrow> error + ydoc" where
  "read_data safe_load fs file_path =
     (case open_read fs file_path of Inl e \<Rightarrow> Inl e | Inr text \<Rightarrow> safe_load text)"

text \<open>\<^verbatim>\<open>data.update(file_data)\<close>: \<^verbatim>\<open>None\<close> is not iterable.\<close>

fun update_from :: "metadata \<Rightarrow> ydoc \<Rightarrow> error + metadata" where
  "update_from data (DMap file_data) = Inr (dict_update data file_data)"
| "update_from data DNull = Inl TypeError"

text \<open>The loop over the files of one folder; it ends at the first YAML file.\<close>

fun load_folder :: "parser \<Rightarrow> filesystem \<Rightarrow> string \<Rightarrow> string list \<Rightarrow> metadata \<Rightarrow> error + metadata" where
  "load_folder safe_load fs folder_path [] data = Inr data"
| "load_folder safe_load fs folder_path (file # rest) data =
     (let file_path = path_join folder_path file in
      if endswith file ''.yaml'' \<or> endswith file ''.yml'' then
        (case read_data safe_load fs file_path of
           Inl e \<Rightarrow> Inl e
         | Inr file_data \<Rightarrow> update_from data file_data)
      else load_folder safe_load fs folder_path rest data)"

text \<open>The loop over the entries of the base folder.\<close>

fun load_folders :: "parser \<Rightarrow> filesystem \<Rightarrow> string list \<Rightarrow> metadata dict \<Rightarrow> error + metadata dict" where
  "load_folders safe_load fs [] folders_data = Inr folders_data"
| "load_folders safe_load fs (folder # rest) folders_data =
     (let folder_path = path_join base_folder folder in
      if isdir fs folder_path then
        (case listdir fs folder_path of
           Inl e \<Rightarrow> Inl e
         | Inr files \<Rightarrow>
             (case load_folder safe_load fs folder_path files [] of
                Inl e \<Rightarrow> Inl e
              | Inr data \<Rightarrow> load_folders safe_load fs rest (dict_set folders_data folder data)))
      else load_folders safe_load fs rest folders_data)"

subsection \<open>Writing the file\<close>

definition title_line :: string where
  "title_line = ''# Releases  '' @ [CHR ''\<newline>'']"

text \<open>
  The result of a run: the exception that ended it, if any, and the file system it leaves.
\<close>

definition update_readme :: "metadata dict \<Rightarrow> filesystem \<Rightarrow> error option \<times> filesystem" where
  "update_readme folders_data fs =
     (case new_table folders_data of
        Inl e \<Rightarrow> (Some e, fs)
      | Inr table \<Rightarrow>
          (case open_write fs readme_path (title_line @ concat table) of
             Inl e \<Rightarrow> (Some e, fs)
           | Inr fs' \<Rightarrow> (None, fs')))"

definition main :: "parser \<Rightarrow> filesystem \<Rightarrow> error option \<times> filesystem" where
  "main safe_load fs =
     (case listdir fs base_folder of
        Inl e \<Rightarrow> (Some e, fs)
      | Inr folders \<Rightarrow>
          (case load_folders safe_load fs folders [] of
             Inl e \<Rightarrow> (Some e, fs)
           | Inr folders_data \<Rightarrow> update_readme folders_data fs))"

subsection \<open>Records that yield a row\<close>

text \<open>
  The value of key \<open>k\<close> in record \<open>d\<close>, when there is one, is a string.
\<close>

definition str_valued :: "metadata \<Rightarrow> string \<Rightarrow> bool" where
  "str_valued d k = (case map_of d k of None \<Rightarrow> True | Some (YStr s) \<Rightarrow> True | Some _ \<Rightarrow> False)"

text \<open>The text of a string value.\<close>

definition str_of :: "yval \<Rightarrow> string" where
  "str_of v = (case v of YStr s \<Rightarrow> s | _ \<Rightarrow> [])"

text \<open>
  The five values that the script concatenates or joins as they are; the value of
  \<^verbatim>\<open>Version\<close> goes through \<^verbatim>\<open>str\<close> and may be of any type.
\<close>

definition row_typed :: "metadata \<Rightarrow> bool" where
  "row_typed d = (str_valued d ''Description'' \<and> str_valued d ''Editor'' \<and> str_valued d ''Status''
     \<and> str_valued d ''Language'' \<and> str_valued d ''Creator'')"

subsection \<open>The example of the specification\<close>

definition example_folders :: "metadata dict" where
  "example_folders =
     [(''b'', [(''Description'', YStr ''Tool B''), (''Version'', YInt 2), (''Language'', YStr ''Go'')]),
      (''a'', [(''Description'', YStr ''Tool A''), (''Version'', YStr ''1.0''),
               (''Creator'', YStr ''X''), (''Editor'', YStr ''http://e'')])]"

section \<open>Properties\<close>

subsection \<open>Strings and cells\<close>

lemma str_items_map: "str_items (map YStr ss) = Inr ss"
  by (induction ss) auto

lemma str_items_Inr: "str_items vs = Inr ss \<Longrightarrow> vs = map YStr ss"
proof (induction vs arbitrary: ss)
  case Nil
  then show ?case by auto
next
  case (Cons v vs)
  then show ?case by (cases v) (auto split: sum.splits)
qed

lemma str_items_Inl: "str_items vs = Inl e \<Longrightarrow> e = TypeError"
proof (induction vs)
  case Nil
  then show ?case by auto
next
  case (Cons v vs)
  then show ?case by (cases v) (auto split: sum.splits)
qed

lemma str_valued_get: "str_valued d k \<Longrightarrow> dict_get d k (YStr '''') = YStr (str_of (dict_get d k (YStr '''')))"
  unfolding str_valued_def dict_get_def str_of_def
  by (auto split: option.splits yval.splits)

lemma not_str_valued_get: "\<not> str_valued d k \<Longrightarrow> dict_contains k d \<and> (\<forall>s. dict_get d k (YStr '''') \<noteq> YStr s)"
  unfolding str_valued_def dict_get_def dict_contains_def
  by (auto split: option.splits yval.splits)

lemma str_add_Inr: "str_add s v = Inr t \<longleftrightarrow> (\<exists>u. v = YStr u \<and> t = s @ u)"
  by (cases v) auto

lemma add_str_Inr: "add_str v s = Inr w \<longleftrightarrow> (\<exists>u. v = YStr u \<and> w = YStr (u @ s))"
  by (cases v) auto

lemma str_add_Inl: "str_add s v = Inl e \<longleftrightarrow> (\<forall>u. v \<noteq> YStr u) \<and> e = TypeError"
  by (cases v) auto

lemma add_str_Inl: "add_str v s = Inl e \<longleftrightarrow> (\<forall>u. v \<noteq> YStr u) \<and> e = TypeError"
  by (cases v) auto

lemma description_cell_Inl: "description_cell d = Inl e \<Longrightarrow> e = TypeError"
  unfolding description_cell_def Let_def
  by (auto simp: str_add_Inl add_str_Inl split: if_splits sum.splits)

lemma version_cell_Inl: "version_cell d = Inl e \<Longrightarrow> e = TypeError"
  unfolding version_cell_def Let_def
  by (auto simp: str_add_Inl split: if_splits sum.splits)

lemma row_cells_Inl: "row_cells folder d = Inl e \<Longrightarrow> e = TypeError"
  unfolding row_cells_def make_row_def
  by (auto dest: description_cell_Inl version_cell_Inl str_items_Inl split: sum.splits)

lemma row_cells_Inr:
  assumes "row_cells folder d = Inr cells"
  shows "\<exists>desc vers lang creator. cells = [folder, desc, vers, lang, creator]
     \<and> description_cell d = Inr (YStr desc) \<and> version_cell d = Inr vers
     \<and> dict_get d ''Language'' (YStr '''') = YStr lang
     \<and> dict_get d ''Creator'' (YStr '''') = YStr creator"
proof -
  from assms obtain row where r: "make_row folder d = Inr row" and s: "str_items row = Inr cells"
    unfolding row_cells_def by (auto split: sum.splits)
  from r obtain descr vers where dc: "description_cell d = Inr descr" and vc: "version_cell d = Inr vers"
    and row: "row = [YStr folder, descr, YStr vers, dict_get d ''Language'' (YStr ''''), dict_get d ''Creator'' (YStr '''')]"
    unfolding make_row_def by (auto split: sum.splits)
  from s have "row = map YStr cells" by (rule str_items_Inr)
  with row have m: "map YStr cells = [YStr folder, descr, YStr vers, dict_get d ''Language'' (YStr ''''), dict_get d ''Creator'' (YStr '''')]"
    by simp
  then obtain c0 c1 c2 c3 c4 where cells: "cells = [c0, c1, c2, c3, c4]"
    by (auto simp: map_eq_Cons_conv)
  with m dc vc show ?thesis by auto
qed

lemma description_cell_Inr:
  assumes "description_cell d = Inr (YStr cell)"
  shows "\<exists>desc. dict_get d ''Description'' (YStr '''') = YStr desc \<and>
     (case map_of d ''Editor'' of
        None \<Rightarrow> cell = desc
      | Some v \<Rightarrow> \<exists>url. v = YStr url \<and> cell = desc @ ''<br>[Web editor]('' @ url @ '')'')"
  using assms unfolding description_cell_def Let_def dict_contains_def
  by (cases "map_of d ''Editor''")
     (auto simp: str_add_Inr add_str_Inr dict_get_def[of d "''Editor''"] split: sum.splits)

lemma version_cell_Inr:
  assumes "version_cell d = Inr cell"
  shows "(case map_of d ''Status'' of
        None \<Rightarrow> cell = py_str (dict_get d ''Version'' (YStr ''''))
      | Some v \<Rightarrow> \<exists>status. v = YStr status \<and> cell = py_str (dict_get d ''Version'' (YStr '''')) @ ''<br>'' @ status)"
  using assms unfolding version_cell_def Let_def dict_contains_def
  by (cases "map_of d ''Status''")
     (auto simp: str_add_Inr dict_get_def[of d "''Status''"] split: sum.splits)

lemma row_typed_cells:
  assumes "row_typed d"
  shows "\<exists>cells. row_cells folder d = Inr cells"
proof -
  from assms have t: "str_valued d ''Description''" "str_valued d ''Editor''" "str_valued d ''Status''"
    "str_valued d ''Language''" "str_valued d ''Creator''"
    unfolding row_typed_def by auto
  obtain desc where desc: "dict_get d ''Description'' (YStr '''') = YStr desc"
    using str_valued_get[OF t(1)] by blast
  obtain ed where ed: "dict_get d ''Editor'' (YStr '''') = YStr ed"
    using str_valued_get[OF t(2)] by blast
  obtain st where st: "dict_get d ''Status'' (YStr '''') = YStr st"
    using str_valued_get[OF t(3)] by blast
  obtain lang where lang: "dict_get d ''Language'' (YStr '''') = YStr lang"
    using str_valued_get[OF t(4)] by blast
  obtain cr where cr: "dict_get d ''Creator'' (YStr '''') = YStr cr"
    using str_valued_get[OF t(5)] by blast
  have "\<exists>c1. description_cell d = Inr (YStr c1)"
    unfolding description_cell_def Let_def by (simp add: desc ed)
  then obtain c1 where c1: "description_cell d = Inr (YStr c1)" by blast
  have "\<exists>c2. version_cell d = Inr c2"
    unfolding version_cell_def Let_def by (simp add: st)
  then obtain c2 where c2: "version_cell d = Inr c2" by blast
  show ?thesis
    unfolding row_cells_def make_row_def by (simp add: c1 c2 lang cr)
qed

lemma row_cells_typed:
  assumes "row_cells folder d = Inr cells"
  shows "row_typed d"
proof -
  from row_cells_Inr[OF assms] obtain desc vers lang creator where
    dc: "description_cell d = Inr (YStr desc)" and vc: "version_cell d = Inr vers"
    and l: "dict_get d ''Language'' (YStr '''') = YStr lang"
    and c: "dict_get d ''Creator'' (YStr '''') = YStr creator" by blast
  have "str_valued d ''Language''" using l not_str_valued_get by blast
  moreover have "str_valued d ''Creator''" using c not_str_valued_get by blast
  moreover have "str_valued d ''Description''"
    using description_cell_Inr[OF dc] not_str_valued_get by blast
  moreover have "str_valued d ''Editor''"
    using description_cell_Inr[OF dc] unfolding str_valued_def by (auto split: option.splits)
  moreover have "str_valued d ''Status''"
    using version_cell_Inr[OF vc] unfolding str_valued_def by (auto split: option.splits)
  ultimately show ?thesis unfolding row_typed_def by simp
qed

lemma row_cells_untyped:
  assumes "\<not> row_typed d"
  shows "row_cells folder d = Inl TypeError"
proof (cases "row_cells folder d")
  case (Inl e)
  then have "e = TypeError" by (rule row_cells_Inl)
  with Inl show ?thesis by simp
next
  case (Inr cells)
  then have "row_typed d" by (rule row_cells_typed)
  with assms show ?thesis by contradiction
qed

lemma str_int_12: "str_int 12 = ''12''"
  by code_simp

subsection \<open>The rows of the table\<close>

lemma rows_cells_Inr:
  "rows_cells fd fs = Inr rows \<Longrightarrow>
     list_all2 (\<lambda>folder cells. \<exists>d. map_of fd folder = Some d \<and> row_cells folder d = Inr cells) fs rows"
proof (induction fs arbitrary: rows)
  case Nil
  then show ?case by simp
next
  case (Cons f fs)
  then show ?case by (auto split: option.splits sum.splits)
qed


lemma rows_cells_Inl: "rows_cells fd fs = Inl e \<Longrightarrow> e = TypeError \<or> e = KeyError"
proof (induction fs)
  case Nil
  then show ?case by simp
next
  case (Cons f fs)
  then show ?case by (auto split: option.splits sum.splits dest: row_cells_Inl)
qed




lemma set_all_keys:
  "set (all_keys fd) = {key. \<exists>data\<in>snd ` set fd. dict_contains key data}"
  unfolding all_keys_def dict_contains_def dict_keys_def
  by (auto simp: map_of_eq_None_iff image_iff split: prod.splits) force+


lemma headers_filter:
  "headers fd = ''Folder Name'' # filter (\<lambda>key. \<exists>data\<in>snd ` set fd. dict_contains key data) desired_order"
  unfolding headers_def ordered_keys_def set_all_keys by simp

lemma length_join:
  "length (join sep xs) = sum_list (map length xs) + length sep * (length xs - 1)"
  by (induction sep xs rule: join.induct) auto







subsection \<open>Loading the folders\<close>

lemma map_of_dict_set: "map_of (dict_set d k v) = (map_of d)(k \<mapsto> v)"
  by (induction d k v rule: dict_set.induct) (auto simp: fun_eq_iff)

lemma listdir_isdir: "listdir fs p = Inr files \<Longrightarrow> isdir fs p"
  unfolding listdir_def isdir_def by (auto split: option.splits node.splits)

lemma load_folder_no_metadata:
  "\<forall>file\<in>set files. \<not> endswith file ''.yaml'' \<and> \<not> endswith file ''.yml'' \<Longrightarrow>
     load_folder safe_load fs folder_path files data = Inr data"
  by (induction files) simp_all

lemma load_folder_first:
  assumes "\<forall>file\<in>set skipped. \<not> endswith file ''.yaml'' \<and> \<not> endswith file ''.yml''"
    and "endswith file ''.yaml'' \<or> endswith file ''.yml''"
  shows "load_folder safe_load fs folder_path (skipped @ file # others) data =
     (case read_data safe_load fs (path_join folder_path file) of
        Inl e \<Rightarrow> Inl e
      | Inr file_data \<Rightarrow> update_from data file_data)"
  using assms by (induction skipped) simp_all

lemma load_folders_append:
  "load_folders safe_load fs (pre @ rest) fd =
     (case load_folders safe_load fs pre fd of
        Inl e \<Rightarrow> Inl e
      | Inr fd1 \<Rightarrow> load_folders safe_load fs rest fd1)"
  by (induction pre arbitrary: fd) (simp_all add: Let_def split: sum.splits)

lemma load_folders_empty_record:
  assumes "listdir fs (path_join base_folder folder) = Inr files"
    and "\<forall>file\<in>set files. \<not> endswith file ''.yaml'' \<and> \<not> endswith file ''.yml''"
  shows "load_folders safe_load fs folders fd = Inr folders_data \<Longrightarrow>
     folder \<in> set folders \<or> map_of fd folder = Some [] \<Longrightarrow>
     map_of folders_data folder = Some []"
proof (induction folders arbitrary: fd)
  case Nil
  then show ?case by simp
next
  case (Cons f rest)
  show ?case
  proof (cases "isdir fs (path_join base_folder f)")
    case False
    with listdir_isdir[OF assms(1)] have ne: "f \<noteq> folder" by auto
    from Cons.prems(1) False have "load_folders safe_load fs rest fd = Inr folders_data"
      by simp
    moreover from Cons.prems(2) ne have "folder \<in> set rest \<or> map_of fd folder = Some []"
      by auto
    ultimately show ?thesis by (rule Cons.IH)
  next
    case True
    with Cons.prems(1) obtain files' data where
      l: "listdir fs (path_join base_folder f) = Inr files'"
      and d: "load_folder safe_load fs (path_join base_folder f) files' [] = Inr data"
      and r: "load_folders safe_load fs rest (dict_set fd f data) = Inr folders_data"
      by (auto simp: Let_def split: sum.splits)
    have "folder \<in> set rest \<or> map_of (dict_set fd f data) folder = Some []"
    proof (cases "f = folder")
      case True
      with l assms(1) have "files' = files" by simp
      with d load_folder_no_metadata[OF assms(2)] True have "data = []" by simp
      with True show ?thesis by (simp add: map_of_dict_set)
    next
      case False
      with Cons.prems(2) show ?thesis by (auto simp: map_of_dict_set)
    qed
    with r show ?thesis by (rule Cons.IH)
  qed
qed

lemma row_cells_empty: "row_cells folder [] = Inr [folder, [], [], [], []]"
  by (simp add: row_cells_def make_row_def description_cell_def version_cell_def
      dict_get_def dict_contains_def)

lemma list_all2_member:
  "list_all2 P xs ys \<Longrightarrow> x \<in> set xs \<Longrightarrow> \<exists>y\<in>set ys. P x y"
  by (induction rule: list_all2_induct) auto

lemma table_cells_row:
  assumes "table_cells fd = Inr rows" and "map_of fd folder = Some d"
  shows "\<exists>cells\<in>set rows. row_cells folder d = Inr cells"
proof -
  from assms(2) have "folder \<in> set (sorted_folders fd)"
    by (auto simp: sorted_folders_def dict_keys_def dest: map_of_SomeD intro: rev_image_eqI)
  moreover from assms(1) have "list_all2
     (\<lambda>folder cells. \<exists>d. map_of fd folder = Some d \<and> row_cells folder d = Inr cells)
     (sorted_folders fd) rows"
    unfolding table_cells_def by (rule rows_cells_Inr)
  ultimately have "\<exists>cells\<in>set rows. \<exists>d. map_of fd folder = Some d \<and> row_cells folder d = Inr cells"
    by (rule list_all2_member[rotated])
  with assms(2) show ?thesis by auto
qed

subsection \<open>The file written\<close>

lemma update_readme_None:
  assumes "update_readme fd fs = (None, fs')"
  shows "\<exists>rows. table_cells fd = Inr rows \<and> \<not> isdir fs readme_path \<and>
     fs' = fs(readme_path \<mapsto>
       File (title_line @ header_line fd @ divider_line fd @ concat (map table_line rows)))"
proof -
  from assms obtain table where t: "new_table fd = Inr table"
    and w: "open_write fs readme_path (title_line @ concat table) = Inr fs'"
    unfolding update_readme_def by (auto split: sum.splits)
  from t obtain rows where r: "table_cells fd = Inr rows"
    and tb: "table = header_line fd # divider_line fd # map table_line rows"
    unfolding new_table_def by (auto split: sum.splits)
  from w have "\<not> isdir fs readme_path" and "fs' = fs(readme_path \<mapsto> File (title_line @ concat table))"
    unfolding open_write_def isdir_def by (auto split: option.splits node.splits)
  with r tb show ?thesis by simp
qed

lemma update_readme_Some: "update_readme fd fs = (Some e, fs') \<Longrightarrow> fs' = fs"
  unfolding update_readme_def by (auto split: sum.splits)

lemma update_readme_prior:
  assumes "update_readme fd fs = (None, fs')"
  shows "update_readme fd (fs(readme_path \<mapsto> File prior)) = (None, fs')"
proof -
  from update_readme_None[OF assms] obtain rows where r: "table_cells fd = Inr rows"
    and "\<not> isdir fs readme_path"
    and f: "fs' = fs(readme_path \<mapsto>
       File (title_line @ header_line fd @ divider_line fd @ concat (map table_line rows)))"
    by blast
  show ?thesis
    unfolding update_readme_def by (simp add: new_table_def r open_write_def f)
qed

lemma main_None:
  assumes "main safe_load fs = (None, fs')"
  shows "\<exists>folders folders_data. listdir fs base_folder = Inr folders \<and>
     load_folders safe_load fs folders [] = Inr folders_data \<and>
     update_readme folders_data fs = (None, fs')"
  using assms unfolding main_def by (auto split: sum.splits)

lemma main_Some: "main safe_load fs = (Some e, fs') \<Longrightarrow> fs' = fs"
  unfolding main_def by (auto split: sum.splits dest: update_readme_Some)

lemma slash_not_in_name:
  assumes "CHR ''/'' \<notin> set name"
  shows "a @ ''/'' @ b \<noteq> name"
proof
  assume "a @ ''/'' @ b = name"
  then have "set name = set (a @ ''/'' @ b)" by simp
  with assms show False by simp
qed

lemma file_path_not_readme:
  "path_join (path_join base_folder folder) file \<noteq> readme_path"
  using slash_not_in_name[where name = "''README.md''" and a = folder and b = "file"]
  by (simp add: path_join_def readme_path_def base_folder_def)

lemma base_folder_not_readme: "base_folder \<noteq> readme_path"
  by (simp add: path_join_def readme_path_def base_folder_def)

lemma isdir_prior:
  "\<not> isdir fs readme_path \<Longrightarrow> isdir (fs(readme_path \<mapsto> File prior)) p = isdir fs p"
  by (simp add: isdir_def)

lemma listdir_prior:
  "\<not> isdir fs readme_path \<Longrightarrow> listdir (fs(readme_path \<mapsto> File prior)) p = listdir fs p"
  by (auto simp: isdir_def listdir_def split: option.splits node.splits)

lemma load_folder_cong:
  assumes "\<And>file. fs1 (path_join folder_path file) = fs2 (path_join folder_path file)"
  shows "load_folder safe_load fs1 folder_path files data
     = load_folder safe_load fs2 folder_path files data"
proof (induction files)
  case Nil
  show ?case by simp
next
  case (Cons f rest)
  have "read_data safe_load fs1 (path_join folder_path f) = read_data safe_load fs2 (path_join folder_path f)"
    by (simp only: read_data_def open_read_def assms)
  with Cons show ?case by (simp only: load_folder.simps Let_def)
qed

lemma load_folders_cong:
  assumes "\<And>p. isdir fs1 p = isdir fs2 p" and "\<And>p. listdir fs1 p = listdir fs2 p"
    and "\<And>folder file. fs1 (path_join (path_join base_folder folder) file)
       = fs2 (path_join (path_join base_folder folder) file)"
  shows "load_folders safe_load fs1 folders fd = load_folders safe_load fs2 folders fd"
proof (induction folders arbitrary: fd)
  case Nil
  show ?case by simp
next
  case (Cons f rest)
  have "\<And>files. load_folder safe_load fs1 (path_join base_folder f) files []
      = load_folder safe_load fs2 (path_join base_folder f) files []"
    by (rule load_folder_cong) (rule assms(3))
  then show ?case
    by (simp only: load_folders.simps Let_def assms(1,2) Cons.IH)
qed

lemma load_folders_prior:
  assumes "\<not> isdir fs readme_path"
  shows "load_folders safe_load (fs(readme_path \<mapsto> File prior)) folders fd
     = load_folders safe_load fs folders fd"
proof (rule load_folders_cong)
  fix p show "isdir (fs(readme_path \<mapsto> File prior)) p = isdir fs p"
    using assms by (rule isdir_prior)
  show "listdir (fs(readme_path \<mapsto> File prior)) p = listdir fs p"
    using assms by (rule listdir_prior)
next
  fix folder "file"
  show "(fs(readme_path \<mapsto> File prior)) (path_join (path_join base_folder folder) file)
       = fs (path_join (path_join base_folder folder) file)"
    by (simp add: file_path_not_readme)
qed

lemma main_prior:
  assumes "main safe_load fs = (None, fs')"
  shows "main safe_load (fs(readme_path \<mapsto> File prior)) = (None, fs')"
proof -
  from main_None[OF assms] obtain folders folders_data where
    l: "listdir fs base_folder = Inr folders"
    and f: "load_folders safe_load fs folders [] = Inr folders_data"
    and u: "update_readme folders_data fs = (None, fs')" by blast
  from update_readme_None[OF u] have n: "\<not> isdir fs readme_path" by blast
  show ?thesis
    unfolding main_def
    by (simp add: listdir_prior[OF n] l load_folders_prior[OF n] f update_readme_prior[OF u])
qed

lemma main_load_error:
  assumes "listdir fs base_folder = Inr folders"
    and "load_folders safe_load fs folders [] = Inl e"
  shows "main safe_load fs = (Some e, fs)"
  by (simp only: main_def assms sum.case)

lemma read_data_parse_error:
  assumes "open_read fs file_path = Inr text" and "safe_load text = Inl e"
  shows "read_data safe_load fs file_path = Inl e"
  by (simp only: read_data_def assms sum.case)

lemma load_folders_error_head:
  assumes "listdir fs (path_join base_folder folder) = Inr files"
    and "load_folder safe_load fs (path_join base_folder folder) files [] = Inl e"
  shows "load_folders safe_load fs (folder # post) fd = Inl e"
  using assms listdir_isdir[OF assms(1)] by (simp add: Let_def)

section \<open>The claims\<close>

text \<open>
  C1: for the two folders \<open>b\<close> and \<open>a\<close> of the example, row \<open>a\<close> comes before row \<open>b\<close>,
  the Description cell of row \<open>a\<close> is \<^verbatim>\<open>Tool A<br>[Web editor](http://e)\<close>, its Creator cell
  is \<^verbatim>\<open>X\<close>, and the Creator cell of row \<open>b\<close> is the empty string.
\<close>

theorem C1_example_table:
  "table_cells example_folders =
     Inr [[''a'', ''Tool A<br>[Web editor](http://e)'', ''1.0'', '''', ''X''],
          [''b'', ''Tool B'', ''2'', ''Go'', '''']] \<and>
   new_table example_folders =
     Inr [''| Folder Name | Description | Version | Language | Creator |'' @ [CHR ''\<newline>''],
          ''| ----------- | ----------- | ------- | -------- | ------- |'' @ [CHR ''\<newline>''],
          ''| a | Tool A<br>[Web editor](http://e) | 1.0 |  | X |'' @ [CHR ''\<newline>''],
          ''| b | Tool B | 2 | Go |  |'' @ [CHR ''\<newline>'']]"
  by code_simp

text \<open>
  C2: the header holds the folder-name column, then exactly those keys of the fixed list
  Description, Version, Language, Creator, in that order, that occur in some record; a key of
  the list that occurs in no record, and any key outside the list, is not a column.
\<close>

theorem C2_header_columns:
  "headers fd = ''Folder Name'' #
     filter (\<lambda>key. \<exists>data\<in>snd ` set fd. dict_contains key data)
       [''Description'', ''Version'', ''Language'', ''Creator'']
   \<and> (\<forall>key. key \<in> set (tl (headers fd)) \<longleftrightarrow>
         key \<in> set [''Description'', ''Version'', ''Language'', ''Creator''] \<and>
         (\<exists>data\<in>snd ` set fd. dict_contains key data))"
proof -
  have h: "headers fd = ''Folder Name'' #
     filter (\<lambda>key. \<exists>data\<in>snd ` set fd. dict_contains key data)
       [''Description'', ''Version'', ''Language'', ''Creator'']"
    using headers_filter[of fd] by (simp only: desired_order_def)
  have "set (tl (headers fd)) = {key \<in> set desired_order. \<exists>data\<in>snd ` set fd. dict_contains key data}"
    by (simp only: headers_filter list.sel set_filter)
  then have "\<forall>key. key \<in> set (tl (headers fd)) \<longleftrightarrow>
         key \<in> set [''Description'', ''Version'', ''Language'', ''Creator''] \<and>
         (\<exists>data\<in>snd ` set fd. dict_contains key data)"
    by (simp only: desired_order_def mem_Collect_eq simp_thms)
  with h show ?thesis by (rule conjI)
qed

theorem C2_header_columns_witness:
  "headers [(''y'', [(''Creator'', YStr ''C''), (''Extra'', YStr ''z'')]),
            (''x'', [(''Version'', YInt 1), (''Editor'', YStr ''u'')])]
     = [''Folder Name'', ''Version'', ''Creator'']"
proof -
  let ?fd = "[(''y'', [(''Creator'', YStr ''C''), (''Extra'', YStr ''z'')]),
            (''x'', [(''Version'', YInt 1), (''Editor'', YStr ''u'')])]"
  have "headers ?fd = ''Folder Name'' #
     filter (\<lambda>key. \<exists>data\<in>snd ` set ?fd. dict_contains key data)
       [''Description'', ''Version'', ''Language'', ''Creator'']"
    by (rule C2_header_columns[of ?fd, THEN conjunct1])
  then show ?thesis
    by (simp add: dict_contains_def)
qed



text \<open>
  C4: when the record has the key \<^verbatim>\<open>Editor\<close> with value \<open>url\<close>, the Description cell is
  the Description value (the empty string when absent) followed by exactly
  \<^verbatim>\<open><br>[Web editor](\<close>, \<open>url\<close> and \<^verbatim>\<open>)\<close>; without the key, the cell is the Description
  value and nothing more. A row exists for every record whose five plain values are
  strings, and any row that exists has this cell; for any other record the script
  raises \<^verbatim>\<open>TypeError\<close> and there is no row.
\<close>

theorem C4_description_cell:
  "(row_typed d \<longrightarrow> (\<exists>cells. row_cells folder d = Inr cells)) \<and>
   (\<forall>cells. row_cells folder d = Inr cells \<longrightarrow>
      (\<exists>desc. dict_get d ''Description'' (YStr '''') = YStr desc \<and>
         (case map_of d ''Editor'' of
            None \<Rightarrow> cells ! 1 = desc
          | Some v \<Rightarrow> \<exists>url. v = YStr url \<and> cells ! 1 = desc @ ''<br>[Web editor]('' @ url @ '')''))) \<and>
   (\<not> row_typed d \<longrightarrow> row_cells folder d = Inl TypeError)"
proof (intro conjI allI impI)
  assume "row_typed d"
  then show "\<exists>cells. row_cells folder d = Inr cells" by (rule row_typed_cells)
next
  assume "\<not> row_typed d"
  then show "row_cells folder d = Inl TypeError" by (rule row_cells_untyped)
next
  fix cells
  assume a: "row_cells folder d = Inr cells"
  from row_cells_Inr[OF a] obtain desc vers lang creator where
    cells: "cells = [folder, desc, vers, lang, creator]"
    and dc: "description_cell d = Inr (YStr desc)" by blast
  from cells have e: "desc = cells ! 1" by simp
  from description_cell_Inr[OF dc]
  show "\<exists>desc. dict_get d ''Description'' (YStr '''') = YStr desc \<and>
         (case map_of d ''Editor'' of
            None \<Rightarrow> cells ! 1 = desc
          | Some v \<Rightarrow> \<exists>url. v = YStr url \<and> cells ! 1 = desc @ ''<br>[Web editor]('' @ url @ '')'')"
    unfolding e .
qed

theorem C4_description_cell_witness:
  "(\<exists>cells. row_cells ''a'' [(''Description'', YStr ''Tool A''), (''Editor'', YStr ''http://e'')] = Inr cells
      \<and> cells ! 1 = ''Tool A<br>[Web editor](http://e)'') \<and>
   (\<exists>cells. row_cells ''b'' [(''Description'', YStr ''Tool B'')] = Inr cells \<and> cells ! 1 = ''Tool B'')"
proof (rule conjI)
  let ?d = "[(''Description'', YStr ''Tool A''), (''Editor'', YStr ''http://e'')]"
  have t: "row_typed ?d" by (simp add: row_typed_def str_valued_def)
  with C4_description_cell[of ?d "''a''"] obtain cells where c: "row_cells ''a'' ?d = Inr cells"
    by blast
  with C4_description_cell[of ?d "''a''"]
  have "\<exists>desc. dict_get ?d ''Description'' (YStr '''') = YStr desc \<and>
         (case map_of ?d ''Editor'' of
            None \<Rightarrow> cells ! 1 = desc
          | Some v \<Rightarrow> \<exists>url. v = YStr url \<and> cells ! 1 = desc @ ''<br>[Web editor]('' @ url @ '')'')"
    by blast
  then have "cells ! 1 = ''Tool A<br>[Web editor](http://e)''"
    by (simp add: dict_get_def)
  with c show "\<exists>cells. row_cells ''a'' ?d = Inr cells \<and> cells ! 1 = ''Tool A<br>[Web editor](http://e)''"
    by blast
next
  let ?d = "[(''Description'', YStr ''Tool B'')]"
  have t: "row_typed ?d" by (simp add: row_typed_def str_valued_def)
  with C4_description_cell[of ?d "''b''"] obtain cells where c: "row_cells ''b'' ?d = Inr cells"
    by blast
  with C4_description_cell[of ?d "''b''"]
  have "\<exists>desc. dict_get ?d ''Description'' (YStr '''') = YStr desc \<and>
         (case map_of ?d ''Editor'' of
            None \<Rightarrow> cells ! 1 = desc
          | Some v \<Rightarrow> \<exists>url. v = YStr url \<and> cells ! 1 = desc @ ''<br>[Web editor]('' @ url @ '')'')"
    by blast
  then have "cells ! 1 = ''Tool B''"
    by (simp add: dict_get_def)
  with c show "\<exists>cells. row_cells ''b'' ?d = Inr cells \<and> cells ! 1 = ''Tool B''"
    by blast
qed

text \<open>
  C5: the Version cell is \<^verbatim>\<open>str\<close> of the Version value (the empty string when absent),
  followed by exactly \<^verbatim>\<open><br>\<close> and the Status value when the key \<^verbatim>\<open>Status\<close> is present,
  and by nothing when it is absent. This holds of every row that exists; the Version
  value itself may be of any type.
\<close>

theorem C5_version_cell:
  "(row_typed d \<longrightarrow> (\<exists>cells. row_cells folder d = Inr cells)) \<and>
   (\<forall>cells. row_cells folder d = Inr cells \<longrightarrow>
      (case map_of d ''Status'' of
         None \<Rightarrow> cells ! 2 = py_str (dict_get d ''Version'' (YStr ''''))
       | Some v \<Rightarrow> \<exists>status. v = YStr status \<and>
           cells ! 2 = py_str (dict_get d ''Version'' (YStr '''')) @ ''<br>'' @ status)) \<and>
   (\<not> row_typed d \<longrightarrow> row_cells folder d = Inl TypeError)"
proof (intro conjI allI impI)
  assume "row_typed d"
  then show "\<exists>cells. row_cells folder d = Inr cells" by (rule row_typed_cells)
next
  assume "\<not> row_typed d"
  then show "row_cells folder d = Inl TypeError" by (rule row_cells_untyped)
next
  fix cells
  assume a: "row_cells folder d = Inr cells"
  from row_cells_Inr[OF a] obtain desc vers lang creator where
    cells: "cells = [folder, desc, vers, lang, creator]"
    and vc: "version_cell d = Inr vers" by blast
  from cells have e: "vers = cells ! 2" by simp
  from version_cell_Inr[OF vc]
  show "case map_of d ''Status'' of
         None \<Rightarrow> cells ! 2 = py_str (dict_get d ''Version'' (YStr ''''))
       | Some v \<Rightarrow> \<exists>status. v = YStr status \<and>
           cells ! 2 = py_str (dict_get d ''Version'' (YStr '''')) @ ''<br>'' @ status"
    unfolding e .
qed

theorem C5_version_cell_witness:
  "(\<exists>cells. row_cells ''a'' [(''Version'', YInt 12), (''Status'', YStr ''beta'')] = Inr cells
      \<and> cells ! 2 = ''12<br>beta'') \<and>
   (\<exists>cells. row_cells ''b'' [(''Version'', YStr ''1.0'')] = Inr cells \<and> cells ! 2 = ''1.0'') \<and>
   (\<exists>cells. row_cells ''c'' [] = Inr cells \<and> cells ! 2 = '''')"
proof (intro conjI)
  let ?d = "[(''Version'', YInt 12), (''Status'', YStr ''beta'')]"
  have t: "row_typed ?d" by (simp add: row_typed_def str_valued_def)
  with C5_version_cell[of ?d "''a''"] obtain cells where c: "row_cells ''a'' ?d = Inr cells"
    by blast
  with C5_version_cell[of ?d "''a''"]
  have "case map_of ?d ''Status'' of
         None \<Rightarrow> cells ! 2 = py_str (dict_get ?d ''Version'' (YStr ''''))
       | Some v \<Rightarrow> \<exists>status. v = YStr status \<and>
           cells ! 2 = py_str (dict_get ?d ''Version'' (YStr '''')) @ ''<br>'' @ status"
    by blast
  then have "cells ! 2 = ''12<br>beta''"
    by (simp add: dict_get_def str_int_12)
  with c show "\<exists>cells. row_cells ''a'' ?d = Inr cells \<and> cells ! 2 = ''12<br>beta''"
    by blast
next
  let ?d = "[(''Version'', YStr ''1.0'')]"
  have t: "row_typed ?d" by (simp add: row_typed_def str_valued_def)
  with C5_version_cell[of ?d "''b''"] obtain cells where c: "row_cells ''b'' ?d = Inr cells"
    by blast
  with C5_version_cell[of ?d "''b''"]
  have "case map_of ?d ''Status'' of
         None \<Rightarrow> cells ! 2 = py_str (dict_get ?d ''Version'' (YStr ''''))
       | Some v \<Rightarrow> \<exists>status. v = YStr status \<and>
           cells ! 2 = py_str (dict_get ?d ''Version'' (YStr '''')) @ ''<br>'' @ status"
    by blast
  then have "cells ! 2 = ''1.0''"
    by (simp add: dict_get_def)
  with c show "\<exists>cells. row_cells ''b'' ?d = Inr cells \<and> cells ! 2 = ''1.0''"
    by blast
next
  let ?d = "[] :: metadata"
  have t: "row_typed ?d" by (simp add: row_typed_def str_valued_def)
  with C5_version_cell[of ?d "''c''"] obtain cells where c: "row_cells ''c'' ?d = Inr cells"
    by blast
  with C5_version_cell[of ?d "''c''"]
  have "case map_of ?d ''Status'' of
         None \<Rightarrow> cells ! 2 = py_str (dict_get ?d ''Version'' (YStr ''''))
       | Some v \<Rightarrow> \<exists>status. v = YStr status \<and>
           cells ! 2 = py_str (dict_get ?d ''Version'' (YStr '''')) @ ''<br>'' @ status"
    by blast
  then have "cells ! 2 = ''''"
    by (simp add: dict_get_def)
  with c show "\<exists>cells. row_cells ''c'' ?d = Inr cells \<and> cells ! 2 = ''''"
    by blast
qed

text \<open>
  C6: the divider row is \<^verbatim>\<open>| \<close>, then one run of dashes for each column of the header, as
  long as the header text of that column, the runs joined by \<^verbatim>\<open> | \<close>, then \<^verbatim>\<open> |\<close> and a
  line break; it is determined by the header alone, whatever the cells of the data rows
  hold.
\<close>

theorem C6_divider_lengths:
  "divider_line fd =
     ''| '' @ join '' | '' (map (\<lambda>header. replicate (length header) CHR ''-'') (headers fd))
       @ '' |'' @ [CHR ''\<newline>''] \<and>
   length (divider_cells fd) = length (headers fd) \<and>
   (\<forall>i<length (headers fd). divider_cells fd ! i = replicate (length (headers fd ! i)) CHR ''-'') \<and>
   divider_line fd = table_line (divider_cells fd) \<and>
   length (divider_line fd) = length (header_line fd) \<and>
   (\<forall>fd'. headers fd' = headers fd \<longrightarrow> divider_line fd' = divider_line fd)"
proof (intro conjI allI impI)
  show "divider_line fd =
     ''| '' @ join '' | '' (map (\<lambda>header. replicate (length header) CHR ''-'') (headers fd))
       @ '' |'' @ [CHR ''\<newline>'']"
    by (simp add: divider_line_def divider_cells_def table_line_def)
next
  show "length (divider_cells fd) = length (headers fd)"
    by (simp add: divider_cells_def)
next
  fix i assume "i < length (headers fd)"
  then show "divider_cells fd ! i = replicate (length (headers fd ! i)) CHR ''-''"
    by (simp add: divider_cells_def)
next
  show "divider_line fd = table_line (divider_cells fd)"
    by (simp only: divider_line_def)
next
  have "map length (divider_cells fd) = map length (headers fd)"
    by (simp add: divider_cells_def comp_def)
  then have "length (join '' | '' (divider_cells fd)) = length (join '' | '' (headers fd))"
    by (simp only: length_join) (simp add: divider_cells_def)
  then show "length (divider_line fd) = length (header_line fd)"
    by (simp add: divider_line_def header_line_def table_line_def)
next
  fix fd' assume "headers fd' = headers fd"
  then show "divider_line fd' = divider_line fd"
    by (simp only: divider_line_def divider_cells_def)
qed

theorem C6_divider_lengths_witness:
  "divider_line [(''a'', [(''Description'', YStr ''A long description of the tool'')])]
     = ''| ----------- | ----------- |'' @ [CHR ''\<newline>''] \<and>
   length (divider_cells [(''a'', [(''Description'', YStr ''A long description of the tool'')])]) = 2 \<and>
   divider_cells [(''a'', [(''Description'', YStr ''A long description of the tool'')])] ! 1
     = ''-----------'' \<and>
   divider_line [(''b'', [(''Description'', YStr ''B'')])]
     = divider_line [(''a'', [(''Description'', YStr ''A long description of the tool'')])]"
proof -
  let ?fd = "[(''a'', [(''Description'', YStr ''A long description of the tool'')])]"
  let ?fd' = "[(''b'', [(''Description'', YStr ''B'')])]"
  have h: "headers ?fd = [''Folder Name'', ''Description'']"
    by (simp add: headers_filter desired_order_def dict_contains_def)
  have h': "headers ?fd' = [''Folder Name'', ''Description'']"
    by (simp add: headers_filter desired_order_def dict_contains_def)
  have r: "replicate 11 CHR ''-'' = ''-----------''"
    by code_simp
  note c6 = C6_divider_lengths[of ?fd]
  from c6 have "divider_line ?fd =
     ''| '' @ join '' | '' (map (\<lambda>header. replicate (length header) CHR ''-'') (headers ?fd))
       @ '' |'' @ [CHR ''\<newline>'']"
    by (rule conjunct1)
  then have t: "divider_line ?fd = ''| ----------- | ----------- |'' @ [CHR ''\<newline>'']"
    by (simp add: h r)
  from c6 have l: "length (divider_cells ?fd) = length (headers ?fd)"
    by (rule conjunct2[THEN conjunct1])
  from c6 have n: "\<forall>i<length (headers ?fd). divider_cells ?fd ! i = replicate (length (headers ?fd ! i)) CHR ''-''"
    by (rule conjunct2[THEN conjunct2, THEN conjunct1])
  from c6 have e: "\<forall>fd'. headers fd' = headers ?fd \<longrightarrow> divider_line fd' = divider_line ?fd"
    by (rule conjunct2[THEN conjunct2, THEN conjunct2, THEN conjunct2, THEN conjunct2])
  have i: "(1::nat) < length (headers ?fd)"
    by (simp add: h)
  from n[THEN spec, THEN mp, OF i]
  have "divider_cells ?fd ! 1 = replicate (length (headers ?fd ! 1)) CHR ''-''" .
  then have c: "divider_cells ?fd ! 1 = ''-----------''"
    by (simp add: h r)
  from l have l2: "length (divider_cells ?fd) = 2"
    by (simp add: h)
  have hh: "headers ?fd' = headers ?fd"
    by (simp only: h h')
  from e[THEN spec, THEN mp, OF hh] have "divider_line ?fd' = divider_line ?fd" .
  with t l2 c show ?thesis by (intro conjI)
qed

text \<open>
  C7: a folder whose listing holds no name ending in \<^verbatim>\<open>.yaml\<close> or \<^verbatim>\<open>.yml\<close> gets the empty
  record, and its row is the folder name followed by four empty cells.
\<close>

theorem C7_no_metadata_file:
  assumes "listdir fs (path_join base_folder folder) = Inr files"
    and "\<forall>file\<in>set files. \<not> endswith file ''.yaml'' \<and> \<not> endswith file ''.yml''"
    and "folder \<in> set folders"
    and "load_folders safe_load fs folders fd = Inr folders_data"
  shows "map_of folders_data folder = Some [] \<and>
    row_cells folder [] = Inr [folder, '''', '''', '''', ''''] \<and>
    (\<forall>rows. table_cells folders_data = Inr rows \<longrightarrow> [folder, '''', '''', '''', ''''] \<in> set rows)"
proof (intro conjI allI impI)
  from assms(3) have "folder \<in> set folders \<or> map_of fd folder = Some []" by (rule disjI1)
  with assms(1,2,4) show m: "map_of folders_data folder = Some []"
    by (rule load_folders_empty_record)
  show "row_cells folder [] = Inr [folder, '''', '''', '''', '''']"
    by (rule row_cells_empty)
  fix rows assume "table_cells folders_data = Inr rows"
  from table_cells_row[OF this m] obtain cells where "cells \<in> set rows"
    and "row_cells folder [] = Inr cells" by (rule bexE)
  then show "[folder, '''', '''', '''', ''''] \<in> set rows"
    by (simp add: row_cells_empty)
qed

theorem C7_no_metadata_file_witness:
  "load_folders (\<lambda>text. Inl YAMLError)
     [''releases'' \<mapsto> Dir [''x'', ''README.md''], ''releases/x'' \<mapsto> Dir [''notes.txt'']]
     [''x'', ''README.md''] [] = Inr [(''x'', [])] \<and>
   map_of [(''x'', [])] ''x'' = Some ([] :: metadata) \<and>
   row_cells ''x'' [] = Inr [''x'', '''', '''', '''', '''']"
proof -
  let ?fs = "[''releases'' \<mapsto> Dir [''x'', ''README.md''], ''releases/x'' \<mapsto> Dir [''notes.txt'']]"
  let ?sl = "\<lambda>text :: string. Inl YAMLError :: error + ydoc"
  have p: "path_join base_folder ''x'' = ''releases/x''"
    by (simp add: path_join_def base_folder_def)
  have a1: "listdir ?fs (path_join base_folder ''x'') = Inr [''notes.txt'']"
    by (simp add: p listdir_def)
  have a2: "\<forall>file\<in>set [''notes.txt'']. \<not> endswith file ''.yaml'' \<and> \<not> endswith file ''.yml''"
    by (simp add: endswith_def)
  have a3: "''x'' \<in> set [''x'', ''README.md'']"
    by simp
  have a4: "load_folders ?sl ?fs [''x'', ''README.md''] [] = Inr [(''x'', [])]"
    by (simp add: path_join_def base_folder_def isdir_def listdir_def endswith_def)
  note c7 = C7_no_metadata_file[OF a1 a2 a3 a4]
  from c7 have "map_of [(''x'', [])] ''x'' = Some ([] :: metadata)"
    by (rule conjunct1)
  moreover from c7 have "row_cells ''x'' [] = Inr [''x'', '''', '''', '''', '''']"
    by (rule conjunct2[THEN conjunct1])
  ultimately show ?thesis using a4 by (intro conjI)
qed

text \<open>
  C8: after a run that ends normally, the target file holds exactly the title line, the
  header line, the divider line and the data rows in order, whatever it held before;
  no other path of the file system is changed.
\<close>

theorem C8_full_replacement:
  assumes "main safe_load fs = (None, fs')"
  shows "(\<exists>folders folders_data rows.
       listdir fs base_folder = Inr folders \<and>
       load_folders safe_load fs folders [] = Inr folders_data \<and>
       table_cells folders_data = Inr rows \<and>
       fs' readme_path = Some (File (''# Releases  '' @ [CHR ''\<newline>''] @
          header_line folders_data @ divider_line folders_data @ concat (map table_line rows)))) \<and>
    (\<forall>prior. main safe_load (fs(readme_path \<mapsto> File prior)) = (None, fs')) \<and>
    (\<forall>p. p \<noteq> readme_path \<longrightarrow> fs' p = fs p)"
proof -
  from main_None[OF assms] obtain folders folders_data where
    l: "listdir fs base_folder = Inr folders"
    and f: "load_folders safe_load fs folders [] = Inr folders_data"
    and u: "update_readme folders_data fs = (None, fs')" by blast
  from update_readme_None[OF u] obtain rows where r: "table_cells folders_data = Inr rows"
    and w: "fs' = fs(readme_path \<mapsto>
       File (title_line @ header_line folders_data @ divider_line folders_data @ concat (map table_line rows)))"
    by blast
  from w have c: "fs' readme_path = Some (File (''# Releases  '' @ [CHR ''\<newline>''] @
          header_line folders_data @ divider_line folders_data @ concat (map table_line rows)))"
    by (simp add: title_line_def)
  from w have o: "\<forall>p. p \<noteq> readme_path \<longrightarrow> fs' p = fs p" by simp
  from assms have p: "\<forall>prior. main safe_load (fs(readme_path \<mapsto> File prior)) = (None, fs')"
    by (simp add: main_prior)
  from l f r c have "\<exists>folders folders_data rows.
       listdir fs base_folder = Inr folders \<and>
       load_folders safe_load fs folders [] = Inr folders_data \<and>
       table_cells folders_data = Inr rows \<and>
       fs' readme_path = Some (File (''# Releases  '' @ [CHR ''\<newline>''] @
          header_line folders_data @ divider_line folders_data @ concat (map table_line rows)))"
    by (intro exI conjI)
  with p o show ?thesis by (intro conjI)
qed

theorem C8_full_replacement_witness:
  "main (\<lambda>text. Inl YAMLError)
     [''releases'' \<mapsto> Dir [''x'', ''README.md''], ''releases/x'' \<mapsto> Dir [''notes.txt''],
      ''releases/README.md'' \<mapsto> File ''old text'']
   = (None,
     [''releases'' \<mapsto> Dir [''x'', ''README.md''], ''releases/x'' \<mapsto> Dir [''notes.txt''],
      ''releases/README.md'' \<mapsto> File (''# Releases  '' @ [CHR ''\<newline>''] @
         ''| Folder Name |'' @ [CHR ''\<newline>''] @ ''| ----------- |'' @ [CHR ''\<newline>''] @
         ''| x |  |  |  |  |'' @ [CHR ''\<newline>''])]) \<and>
   main (\<lambda>text. Inl YAMLError)
     [''releases'' \<mapsto> Dir [''x'', ''README.md''], ''releases/x'' \<mapsto> Dir [''notes.txt''],
      ''releases/README.md'' \<mapsto> File ''another text'']
   = (None,
     [''releases'' \<mapsto> Dir [''x'', ''README.md''], ''releases/x'' \<mapsto> Dir [''notes.txt''],
      ''releases/README.md'' \<mapsto> File (''# Releases  '' @ [CHR ''\<newline>''] @
         ''| Folder Name |'' @ [CHR ''\<newline>''] @ ''| ----------- |'' @ [CHR ''\<newline>''] @
         ''| x |  |  |  |  |'' @ [CHR ''\<newline>''])])"
proof -
  let ?sl = "\<lambda>text :: string. Inl YAMLError :: error + ydoc"
  let ?fs = "[''releases'' \<mapsto> Dir [''x'', ''README.md''], ''releases/x'' \<mapsto> Dir [''notes.txt''],
      ''releases/README.md'' \<mapsto> File ''old text'']"
  let ?fs' = "[''releases'' \<mapsto> Dir [''x'', ''README.md''], ''releases/x'' \<mapsto> Dir [''notes.txt''],
      ''releases/README.md'' \<mapsto> File (''# Releases  '' @ [CHR ''\<newline>''] @
         ''| Folder Name |'' @ [CHR ''\<newline>''] @ ''| ----------- |'' @ [CHR ''\<newline>''] @
         ''| x |  |  |  |  |'' @ [CHR ''\<newline>''])]"
  have p: "readme_path = ''releases/README.md''"
    by (simp add: readme_path_def path_join_def base_folder_def)
  have l: "load_folders ?sl ?fs [''x'', ''README.md''] [] = Inr [(''x'', [])]"
    by (simp add: path_join_def base_folder_def isdir_def listdir_def endswith_def)
  have h: "headers [(''x'', [])] = [''Folder Name'']"
    by (simp add: headers_filter desired_order_def dict_contains_def)
  have t: "new_table [(''x'', [])] =
     Inr [''| Folder Name |'' @ [CHR ''\<newline>''], ''| ----------- |'' @ [CHR ''\<newline>''],
          ''| x |  |  |  |  |'' @ [CHR ''\<newline>'']]"
    by (simp add: new_table_def table_cells_def sorted_folders_def dict_keys_def row_cells_empty
        header_line_def divider_line_def divider_cells_def h table_line_def)
  have ld: "listdir ?fs base_folder = Inr [''x'', ''README.md'']"
    by (simp add: listdir_def base_folder_def)
  have u: "update_readme [(''x'', [])] ?fs = (None, ?fs')"
    by (simp add: update_readme_def t open_write_def p title_line_def)
  have a: "main ?sl ?fs = (None, ?fs')"
    by (simp only: main_def ld l u sum.case)
  from C8_full_replacement[OF a, THEN conjunct2, THEN conjunct1, THEN spec, of "''another text''"]
  have "main ?sl (?fs(''releases/README.md'' \<mapsto> File ''another text'')) = (None, ?fs')"
    by (simp only: p)
  then have "main ?sl [''releases'' \<mapsto> Dir [''x'', ''README.md''], ''releases/x'' \<mapsto> Dir [''notes.txt''],
      ''releases/README.md'' \<mapsto> File ''another text''] = (None, ?fs')"
    by simp
  with a show ?thesis by (rule conjI)
qed

text \<open>
  C9: when the parser fails on the metadata file of a folder, the run ends with an error
  and the file system is as it was; the error is the parser's when the folders listed
  before were loaded. Whenever a run ends with an error, nothing has been written; a run
  that ends normally has loaded every folder and built the whole table.
\<close>

theorem C9_parse_failure:
  "(main safe_load fs = (Some err, fs') \<longrightarrow> fs' = fs) \<and>
   (listdir fs base_folder = Inr (pre @ folder # post) \<and>
    listdir fs (path_join base_folder folder) = Inr (skipped @ yaml_file # others) \<and>
    (\<forall>f\<in>set skipped. \<not> endswith f ''.yaml'' \<and> \<not> endswith f ''.yml'') \<and>
    (endswith yaml_file ''.yaml'' \<or> endswith yaml_file ''.yml'') \<and>
    open_read fs (path_join (path_join base_folder folder) yaml_file) = Inr content \<and>
    safe_load content = Inl e \<longrightarrow>
      (\<exists>e'. main safe_load fs = (Some e', fs)) \<and>
      ((\<exists>loaded. load_folders safe_load fs pre [] = Inr loaded) \<longrightarrow>
         main safe_load fs = (Some e, fs))) \<and>
   (main safe_load fs = (None, fs'') \<longrightarrow>
      (\<exists>folders folders_data table. listdir fs base_folder = Inr folders \<and>
         load_folders safe_load fs folders [] = Inr folders_data \<and>
         new_table folders_data = Inr table))"
proof (intro conjI impI)
  assume "main safe_load fs = (Some err, fs')"
  then show "fs' = fs" by (rule main_Some)
next
  assume a: "listdir fs base_folder = Inr (pre @ folder # post) \<and>
    listdir fs (path_join base_folder folder) = Inr (skipped @ yaml_file # others) \<and>
    (\<forall>f\<in>set skipped. \<not> endswith f ''.yaml'' \<and> \<not> endswith f ''.yml'') \<and>
    (endswith yaml_file ''.yaml'' \<or> endswith yaml_file ''.yml'') \<and>
    open_read fs (path_join (path_join base_folder folder) yaml_file) = Inr content \<and>
    safe_load content = Inl e"
  then have l: "listdir fs base_folder = Inr (pre @ folder # post)"
    and lf: "listdir fs (path_join base_folder folder) = Inr (skipped @ yaml_file # others)"
    and sk: "\<forall>f\<in>set skipped. \<not> endswith f ''.yaml'' \<and> \<not> endswith f ''.yml''"
    and y: "endswith yaml_file ''.yaml'' \<or> endswith yaml_file ''.yml''"
    and o: "open_read fs (path_join (path_join base_folder folder) yaml_file) = Inr content"
    and p: "safe_load content = Inl e"
    by simp_all
  from o p have "read_data safe_load fs (path_join (path_join base_folder folder) yaml_file) = Inl e"
    by (rule read_data_parse_error)
  then have "load_folder safe_load fs (path_join base_folder folder) (skipped @ yaml_file # others) [] = Inl e"
    by (simp only: load_folder_first[OF sk y] sum.case)
  with lf have h: "\<And>fd. load_folders safe_load fs (folder # post) fd = Inl e"
    by (rule load_folders_error_head)
  have ap: "load_folders safe_load fs (pre @ folder # post) [] =
     (case load_folders safe_load fs pre [] of
        Inl e \<Rightarrow> Inl e
      | Inr fd1 \<Rightarrow> load_folders safe_load fs (folder # post) fd1)"
    by (rule load_folders_append)
  show "\<exists>e'. main safe_load fs = (Some e', fs)"
  proof (cases "load_folders safe_load fs pre []")
    case (Inl e')
    with ap have "load_folders safe_load fs (pre @ folder # post) [] = Inl e'" by simp
    with l have "main safe_load fs = (Some e', fs)" by (rule main_load_error)
    then show ?thesis by (rule exI)
  next
    case (Inr fd1)
    with ap h have "load_folders safe_load fs (pre @ folder # post) [] = Inl e" by simp
    with l have "main safe_load fs = (Some e, fs)" by (rule main_load_error)
    then show ?thesis by (rule exI)
  qed
  assume "\<exists>loaded. load_folders safe_load fs pre [] = Inr loaded"
  then obtain fd1 where "load_folders safe_load fs pre [] = Inr fd1" by (rule exE)
  with ap h have "load_folders safe_load fs (pre @ folder # post) [] = Inl e" by simp
  with l show "main safe_load fs = (Some e, fs)" by (rule main_load_error)
next
  assume "main safe_load fs = (None, fs'')"
  from main_None[OF this] obtain folders folders_data where
    l: "listdir fs base_folder = Inr folders"
    and f: "load_folders safe_load fs folders [] = Inr folders_data"
    and u: "update_readme folders_data fs = (None, fs'')" by blast
  from u obtain table where "new_table folders_data = Inr table"
    unfolding update_readme_def by (auto split: sum.splits)
  with l f show "\<exists>folders folders_data table. listdir fs base_folder = Inr folders \<and>
         load_folders safe_load fs folders [] = Inr folders_data \<and>
         new_table folders_data = Inr table"
    by (intro exI conjI)
qed

theorem C9_parse_failure_witness:
  "main (\<lambda>text. if text = ''Version: 1'' then Inr (DMap [(''Version'', YInt 1)]) else Inl YAMLError)
     [''releases'' \<mapsto> Dir [''a'', ''b'', ''README.md''],
      ''releases/a'' \<mapsto> Dir [''a.yml''], ''releases/a/a.yml'' \<mapsto> File ''Version: 1'',
      ''releases/b'' \<mapsto> Dir [''notes.txt'', ''meta.yaml''], ''releases/b/meta.yaml'' \<mapsto> File ''{'',
      ''releases/README.md'' \<mapsto> File ''old text'']
   = (Some YAMLError,
     [''releases'' \<mapsto> Dir [''a'', ''b'', ''README.md''],
      ''releases/a'' \<mapsto> Dir [''a.yml''], ''releases/a/a.yml'' \<mapsto> File ''Version: 1'',
      ''releases/b'' \<mapsto> Dir [''notes.txt'', ''meta.yaml''], ''releases/b/meta.yaml'' \<mapsto> File ''{'',
      ''releases/README.md'' \<mapsto> File ''old text''])"
proof -
  let ?sl = "\<lambda>text. if text = ''Version: 1'' then Inr (DMap [(''Version'', YInt 1)]) else Inl YAMLError"
  let ?fs = "[''releases'' \<mapsto> Dir [''a'', ''b'', ''README.md''],
      ''releases/a'' \<mapsto> Dir [''a.yml''], ''releases/a/a.yml'' \<mapsto> File ''Version: 1'',
      ''releases/b'' \<mapsto> Dir [''notes.txt'', ''meta.yaml''], ''releases/b/meta.yaml'' \<mapsto> File ''{'',
      ''releases/README.md'' \<mapsto> File ''old text'']"
  have l: "listdir ?fs base_folder = Inr ([''a''] @ ''b'' # [''README.md''])"
    by (simp add: listdir_def base_folder_def)
  have lf: "listdir ?fs (path_join base_folder ''b'') = Inr ([''notes.txt''] @ ''meta.yaml'' # [])"
    by (simp add: listdir_def base_folder_def path_join_def)
  have sk: "\<forall>f\<in>set [''notes.txt'']. \<not> endswith f ''.yaml'' \<and> \<not> endswith f ''.yml''"
    by (simp add: endswith_def)
  have y: "endswith ''meta.yaml'' ''.yaml'' \<or> endswith ''meta.yaml'' ''.yml''"
    by (simp add: endswith_def)
  have o: "open_read ?fs (path_join (path_join base_folder ''b'') ''meta.yaml'') = Inr ''{''"
    by (simp add: open_read_def base_folder_def path_join_def)
  have p: "?sl ''{'' = Inl YAMLError"
    by simp
  have pre: "\<exists>loaded. load_folders ?sl ?fs [''a''] [] = Inr loaded"
    by (simp add: path_join_def base_folder_def isdir_def listdir_def endswith_def
        read_data_def open_read_def dict_update_def)
  from l lf sk y o p
  have hyp: "listdir ?fs base_folder = Inr ([''a''] @ ''b'' # [''README.md'']) \<and>
    listdir ?fs (path_join base_folder ''b'') = Inr ([''notes.txt''] @ ''meta.yaml'' # []) \<and>
    (\<forall>f\<in>set [''notes.txt'']. \<not> endswith f ''.yaml'' \<and> \<not> endswith f ''.yml'') \<and>
    (endswith ''meta.yaml'' ''.yaml'' \<or> endswith ''meta.yaml'' ''.yml'') \<and>
    open_read ?fs (path_join (path_join base_folder ''b'') ''meta.yaml'') = Inr ''{'' \<and>
    ?sl ''{'' = Inl YAMLError"
    by (intro conjI)
  from C9_parse_failure[where safe_load = "?sl" and fs = "?fs" and pre = "[''a'']" and folder = "''b''"
      and post = "[''README.md'']" and skipped = "[''notes.txt'']" and yaml_file = "''meta.yaml''"
      and others = "[]" and content = "''{''" and e = YAMLError,
      THEN conjunct2, THEN conjunct1, THEN mp, OF hyp, THEN conjunct2, THEN mp, OF pre]
  show ?thesis .
qed



end
